theory Spec2Isabelle
  imports Complex_Main
begin

section \<open>Python values and exceptions\<close>

text \<open>
  The platform computes with Python floats.  They are modelled as \<^typ>\<open>real\<close>: every
  arithmetic operation of the source is the exact operation here, and every input used
  in an evaluated example below is a small integer or dyadic fraction.  Exceptions are
  values: a function that can raise returns \<open>py_error + 'a\<close>, with \<open>Inl\<close> the exception.
\<close>

datatype py_error = IntegrityError | ValueError | TypeError | ZeroDivisionError

definition bind_res :: "py_error + 'a \<Rightarrow> ('a \<Rightarrow> py_error + 'b) \<Rightarrow> py_error + 'b" where
  "bind_res r f = (case r of Inl e \<Rightarrow> Inl e | Inr x \<Rightarrow> f x)"

definition py_div :: "real \<Rightarrow> real \<Rightarrow> py_error + real" where
  \<comment> \<open>Python's \<open>/\<close> on numbers: a zero divisor raises.\<close>
  "py_div a b = (if b = 0 then Inl ZeroDivisionError else Inr (a / b))"

definition truthy_str :: "string option \<Rightarrow> bool" where
  \<comment> \<open>truth value of \<open>d.get(k)\<close> for a string field: \<open>None\<close> and \<open>''\<close> are false\<close>
  "truthy_str v = (case v of None \<Rightarrow> False | Some s \<Rightarrow> s \<noteq> [])"

definition truthy_num :: "real option \<Rightarrow> bool" where
  \<comment> \<open>truth value of \<open>d.get(k)\<close> for a number field: \<open>None\<close> and \<open>0\<close> are false\<close>
  "truthy_num v = (case v of None \<Rightarrow> False | Some x \<Rightarrow> x \<noteq> 0)"

section \<open>config/settings.py\<close>

definition SHARP_BOOKS :: "string list" where
  "SHARP_BOOKS = [''pinnacle'', ''betfair'']"

definition SOFT_BOOKS :: "string list" where
  "SOFT_BOOKS = [''draftkings'', ''fanduel'', ''bet365'', ''betmgm'']"

definition ALL_BOOKS :: "string list" where
  "ALL_BOOKS = SHARP_BOOKS @ SOFT_BOOKS"

definition MIN_EDGE_PERCENT :: real where "MIN_EDGE_PERCENT = 5"
definition MIN_PROBABILITY :: real where "MIN_PROBABILITY = 0.35"
definition KELLY_FRACTION :: real where "KELLY_FRACTION = 0.25"
definition DEFAULT_BANKROLL :: real where "DEFAULT_BANKROLL = 1000"
definition MAX_BET_PERCENT :: real where "MAX_BET_PERCENT = 0.05"

section \<open>services/value\_finder.py: the stake sizer\<close>

definition calculate_kelly_bet :: "real \<Rightarrow> real \<Rightarrow> real \<Rightarrow> real \<Rightarrow> py_error + real" where
  "calculate_kelly_bet win_prob odds bankroll kelly_fraction =
     (let b = odds - 1;
          q = 1 - win_prob
      in if b \<le> 0 \<or> odds \<le> 1 then Inr 0
         else bind_res (py_div (b * win_prob - q) b) (\<lambda>full_kelly.
              let kelly_pct = max 0 (full_kelly * kelly_fraction);
                  bet_size = bankroll * kelly_pct
              in Inr (max 0 (min bet_size (bankroll * MAX_BET_PERCENT)))))"

section \<open>services/market\_analyzer.py: vig\<close>

record vig_data =
  total_probability :: real
  vig :: real
  vig_percent :: real

record fair_probs =
  fp_home :: real
  fp_away :: real
  fp_draw :: "real option"
  vig_removed :: real

definition or_zero :: "real option \<Rightarrow> real" where
  \<comment> \<open>\<open>draw_prob or 0\<close>\<close>
  "or_zero d = (case d of None \<Rightarrow> 0 | Some x \<Rightarrow> if x = 0 then 0 else x)"

definition calculate_vig :: "real \<Rightarrow> real \<Rightarrow> real option \<Rightarrow> vig_data" where
  "calculate_vig home_prob away_prob draw_prob =
     (let total_prob = home_prob + away_prob + or_zero draw_prob;
          v = total_prob - 1;
          v_percent = (if total_prob > 0 then v / total_prob * 100 else 0)
      in \<lparr>total_probability = total_prob, vig = v, vig_percent = v_percent\<rparr>)"

definition remove_vig :: "real \<Rightarrow> real \<Rightarrow> real option \<Rightarrow> py_error + fair_probs" where
  "remove_vig home_prob away_prob draw_prob =
     (let vd = calculate_vig home_prob away_prob draw_prob
      in if vig vd = 0
         then Inr \<lparr>fp_home = home_prob, fp_away = away_prob, fp_draw = draw_prob,
                   vig_removed = 0\<rparr>
         else bind_res (py_div home_prob (1 + vig vd)) (\<lambda>fair_home.
              bind_res (py_div away_prob (1 + vig vd)) (\<lambda>fair_away.
              bind_res (case draw_prob of
                          None \<Rightarrow> Inr None
                        | Some d \<Rightarrow> if d = 0 then Inr None
                                    else map_sum id Some (py_div d (1 + vig vd))) (\<lambda>fair_draw.
              Inr \<lparr>fp_home = fair_home, fp_away = fair_away, fp_draw = fair_draw,
                    vig_removed = vig_percent vd\<rparr>))))"

section \<open>models/database.py: the rows\<close>

text \<open>
  Instants (\<open>DateTime\<close> columns, \<open>datetime.utcnow()\<close>) are natural numbers.  The
  surrogate keys of \<open>odds_snapshots\<close> and \<open>value_bets\<close> are never read by the code
  modelled here and are left out; \<open>games.id\<close> is read (it becomes \<open>game_id\<close>).
  The home and away columns of a snapshot are always written by the ingestion and are
  numbers; the draw columns are written as \<open>None\<close> for a quote without a draw price
  and are options.  The score columns of \<open>games\<close> and the table \<open>bet_results\<close>
  belong to the bet tracker and are left out.
\<close>

record game =
  g_id :: nat
  odds_api_id :: string
  league :: string
  home_team :: string
  away_team :: string
  commence_time :: nat
  g_result :: "string option"

record odds_snapshot =
  game_id :: nat
  bookmaker :: string
  home_odds :: real
  away_odds :: real
  draw_odds :: "real option"
  home_implied_prob :: real
  away_implied_prob :: real
  draw_implied_prob :: "real option"
  snapshot_time :: nat

record value_bet =
  vb_game_id :: nat
  vb_home_team :: string
  vb_away_team :: string
  betting_selection :: string
  my_probability :: real
  market_probability :: real
  offered_odds :: real
  fair_odds :: real
  edge_percent :: real
  vb_bookmaker :: string
  kelly_fraction :: real
  recommended_stake :: real
  identified_at :: nat
  is_bet_placed :: bool
  vb_result :: "string option"

record store =
  games :: "game list"
  odds_snapshots :: "odds_snapshot list"
  value_bets :: "value_bet list"

section \<open>services/market\_analyzer.py: consensus and discrepancies\<close>

definition get_latest_snapshot_for_game :: "store \<Rightarrow> nat \<Rightarrow> odds_snapshot list" where
  \<comment> \<open>\<open>filter_by(game_id=...)\<close>, \<open>order_by(desc(snapshot_time))\<close>; rows with equal
      times come latest-inserted first (SQL leaves their order open)\<close>
  "get_latest_snapshot_for_game db gid =
     rev (sort_key snapshot_time (filter (\<lambda>s. game_id s = gid) (odds_snapshots db)))"

record consensus =
  home_probability :: real
  away_probability :: real
  draw_probability :: "real option"
  source_count :: nat
  consensus_type :: string

definition py_sum :: "real option list \<Rightarrow> py_error + real" where
  \<comment> \<open>\<open>sum(...)\<close> over values of a nullable column: adding \<open>None\<close> raises\<close>
  "py_sum xs = (case those xs of None \<Rightarrow> Inl TypeError | Some ys \<Rightarrow> Inr (sum_list ys))"

definition get_market_consensus :: "store \<Rightarrow> nat \<Rightarrow> bool \<Rightarrow> py_error + consensus option" where
  "get_market_consensus db gid use_sharp_only =
     (let snapshots = get_latest_snapshot_for_game db gid
      in if snapshots = [] then Inr None
         else
           let snapshots =
                 (if use_sharp_only
                  then filter (\<lambda>s. bookmaker s \<in> set [''pinnacle'', ''betfair'']) snapshots
                  else snapshots)
           in case snapshots of
                [] \<Rightarrow> Inr None
              | s0 # _ \<Rightarrow>
                  bind_res (py_div (sum_list (map home_implied_prob snapshots))
                                   (real (length snapshots))) (\<lambda>avg_home_prob.
                  bind_res (py_div (sum_list (map away_implied_prob snapshots))
                                   (real (length snapshots))) (\<lambda>avg_away_prob.
                  bind_res (if draw_implied_prob s0 \<noteq> None
                            then bind_res (py_sum (map draw_implied_prob snapshots)) (\<lambda>t.
                                 map_sum id Some (py_div t (real (length snapshots))))
                            else Inr None) (\<lambda>avg_draw_prob.
                  Inr (Some \<lparr>home_probability = avg_home_prob,
                             away_probability = avg_away_prob,
                             draw_probability = avg_draw_prob,
                             source_count = length snapshots,
                             consensus_type = (if use_sharp_only then ''sharp'' else ''all'')\<rparr>)))))"

record discrepancy =
  d_bookmaker :: string
  d_selection :: string
  d_offered_odds :: real
  d_fair_odds :: real
  d_edge_percent :: real
  implied_prob_soft :: real
  implied_prob_consensus :: real

definition check_snapshot ::
  "consensus \<Rightarrow> real \<Rightarrow> odds_snapshot \<Rightarrow> discrepancy list \<Rightarrow> py_error + discrepancy list" where
  \<comment> \<open>one pass of the loop over \<open>soft_snapshots\<close>: the home side, then the away side\<close>
  "check_snapshot c min_edge_percent snap discrepancies =
     bind_res (py_div 1 (home_probability c)) (\<lambda>home_fair_odds.
     bind_res (py_div (home_odds snap) home_fair_odds) (\<lambda>home_ratio.
     let home_edge = (home_ratio - 1) * 100;
         discrepancies =
           (if home_edge \<ge> min_edge_percent
            then discrepancies @
                 [\<lparr>d_bookmaker = bookmaker snap, d_selection = ''Home'',
                   d_offered_odds = home_odds snap, d_fair_odds = home_fair_odds,
                   d_edge_percent = home_edge,
                   implied_prob_soft = home_implied_prob snap,
                   implied_prob_consensus = home_probability c\<rparr>]
            else discrepancies)
     in
     bind_res (py_div 1 (away_probability c)) (\<lambda>away_fair_odds.
     bind_res (py_div (away_odds snap) away_fair_odds) (\<lambda>away_ratio.
     let away_edge = (away_ratio - 1) * 100
     in Inr (if away_edge \<ge> min_edge_percent
             then discrepancies @
                  [\<lparr>d_bookmaker = bookmaker snap, d_selection = ''Away'',
                    d_offered_odds = away_odds snap, d_fair_odds = away_fair_odds,
                    d_edge_percent = away_edge,
                    implied_prob_soft = away_implied_prob snap,
                    implied_prob_consensus = away_probability c\<rparr>]
             else discrepancies)))))"

fun check_snapshots ::
  "consensus \<Rightarrow> real \<Rightarrow> odds_snapshot list \<Rightarrow> discrepancy list \<Rightarrow> py_error + discrepancy list" where
  "check_snapshots c min_edge_percent [] discrepancies = Inr discrepancies"
| "check_snapshots c min_edge_percent (snap # rest) discrepancies =
     bind_res (check_snapshot c min_edge_percent snap discrepancies)
              (check_snapshots c min_edge_percent rest)"

definition identify_soft_book_discrepancies ::
  "store \<Rightarrow> nat \<Rightarrow> real \<Rightarrow> py_error + discrepancy list" where
  "identify_soft_book_discrepancies db gid min_edge_percent =
     (let snapshots = get_latest_snapshot_for_game db gid
      in bind_res (get_market_consensus db gid True) (\<lambda>cons.
         case cons of
           None \<Rightarrow> Inr []
         | Some c \<Rightarrow>
             let soft_snapshots =
                   filter (\<lambda>s. bookmaker s \<in>
                                set [''draftkings'', ''fanduel'', ''bet365'', ''betmgm''])
                          snapshots
             in check_snapshots c min_edge_percent soft_snapshots []))"

section \<open>services/value\_finder.py: the value-bet scan\<close>

definition make_value_bet :: "nat \<Rightarrow> game \<Rightarrow> consensus \<Rightarrow> real \<Rightarrow> discrepancy
    \<Rightarrow> py_error + value_bet option" where
  \<comment> \<open>one pass of the loop over \<open>discrepancies\<close>; \<open>None\<close> is the \<open>continue\<close>\<close>
  "make_value_bet now g c min_probability disc =
     (let my_prob = (if d_selection disc = ''Home'' then home_probability c
                     else away_probability c)
      in if my_prob < min_probability then Inr None
         else bind_res (calculate_kelly_bet my_prob (d_offered_odds disc)
                          DEFAULT_BANKROLL KELLY_FRACTION) (\<lambda>kelly_bet.
              Inr (Some \<lparr>vb_game_id = g_id g,
                         vb_home_team = home_team g,
                         vb_away_team = away_team g,
                         betting_selection = d_selection disc,
                         my_probability = my_prob,
                         market_probability = implied_prob_consensus disc,
                         offered_odds = d_offered_odds disc,
                         fair_odds = d_fair_odds disc,
                         edge_percent = d_edge_percent disc,
                         vb_bookmaker = d_bookmaker disc,
                         kelly_fraction = KELLY_FRACTION,
                         recommended_stake = kelly_bet,
                         identified_at = now,
                         is_bet_placed = False,
                         vb_result = None\<rparr>)))"

fun scan_discrepancies :: "nat \<Rightarrow> game \<Rightarrow> consensus \<Rightarrow> real \<Rightarrow> discrepancy list
    \<Rightarrow> value_bet list \<Rightarrow> py_error + value_bet list" where
  "scan_discrepancies now g c min_probability [] bets = Inr bets"
| "scan_discrepancies now g c min_probability (disc # rest) bets =
     bind_res (make_value_bet now g c min_probability disc) (\<lambda>r.
     scan_discrepancies now g c min_probability rest
       (case r of None \<Rightarrow> bets | Some vb \<Rightarrow> bets @ [vb]))"

fun scan_games :: "store \<Rightarrow> nat \<Rightarrow> real \<Rightarrow> real \<Rightarrow> game list \<Rightarrow> value_bet list
    \<Rightarrow> py_error + value_bet list" where
  "scan_games db now min_edge_percent min_probability [] bets = Inr bets"
| "scan_games db now min_edge_percent min_probability (g # rest) bets =
     bind_res (get_market_consensus db (g_id g) True) (\<lambda>cons.
     case cons of
       None \<Rightarrow> scan_games db now min_edge_percent min_probability rest bets
     | Some c \<Rightarrow>
         bind_res (identify_soft_book_discrepancies db (g_id g) min_edge_percent)
           (\<lambda>discrepancies.
         bind_res (scan_discrepancies now g c min_probability discrepancies bets)
           (scan_games db now min_edge_percent min_probability rest)))"

definition find_value_bets :: "store \<Rightarrow> nat \<Rightarrow> real \<Rightarrow> real
    \<Rightarrow> py_error + (value_bet list \<times> store)" where
  \<comment> \<open>\<open>now\<close> is the reading of \<open>datetime.utcnow()\<close>; the rows are committed at the end\<close>
  "find_value_bets db now min_edge_percent min_probability =
     (let upcoming = filter (\<lambda>g. g_result g = None \<and> commence_time g > now) (games db)
      in bind_res (scan_games db now min_edge_percent min_probability upcoming [])
           (\<lambda>bets. Inr (bets, db\<lparr>value_bets := value_bets db @ bets\<rparr>)))"

section \<open>services/odds\_fetcher.py: ingestion\<close>

text \<open>
  The feed is the decoded JSON list that \<open>get_upcoming_odds\<close> returns (the empty list
  after any network or decoding failure).  A field read with \<open>.get(k)\<close> is an option;
  a list read with \<open>.get(k, [])\<close> is a list, empty when the key is missing.
\<close>

record outcome =
  o_name :: "string option"
  o_price :: "real option"

record market =
  m_outcomes :: "outcome list"

record bookmaker_data =
  bm_key :: "string option"
  bm_markets :: "market list"

record event =
  ev_id :: "string option"
  ev_home_team :: "string option"
  ev_away_team :: "string option"
  ev_commence_time :: "string option"
  ev_bookmakers :: "bookmaker_data list"

definition upper :: "string \<Rightarrow> string" where
  \<comment> \<open>\<open>str.upper()\<close> on ASCII\<close>
  "upper s = map (\<lambda>c. let n = (of_char c :: nat)
                       in if 97 \<le> n \<and> n \<le> 122 then char_of (n - 32) else c) s"

definition replace_Z :: "string \<Rightarrow> string" where
  \<comment> \<open>\<open>.replace('Z', '+00:00')\<close>\<close>
  "replace_Z s = concat (map (\<lambda>c. if c = CHR ''Z'' then ''+00:00'' else [c]) s)"

definition outcome_map :: "outcome list \<Rightarrow> (string option \<rightharpoonup> real option)" where
  \<comment> \<open>the dict comprehension: a later outcome with the same name replaces an earlier one\<close>
  "outcome_map outcomes = map_of (rev (map (\<lambda>oc. (o_name oc, o_price oc)) outcomes))"

definition dict_get :: "('k \<rightharpoonup> 'v option) \<Rightarrow> 'k \<Rightarrow> 'v option" where
  \<comment> \<open>\<open>d.get(k)\<close>: \<open>None\<close> for a missing key and for a stored \<open>None\<close>\<close>
  "dict_get d k = (case d k of None \<Rightarrow> None | Some v \<Rightarrow> v)"

definition snapshot_of_block ::
  "game \<Rightarrow> nat \<Rightarrow> string \<Rightarrow> string \<Rightarrow> bookmaker_data \<Rightarrow> py_error + odds_snapshot option" where
  \<comment> \<open>one pass of the loop over \<open>bookmakers\<close>; \<open>None\<close> is a \<open>continue\<close>.  \<open>now\<close> is
      the value the column default gives \<open>snapshot_time\<close>.  Past the truthiness guard
      \<open>or_zero\<close> reads the number a price holds.\<close>
  "snapshot_of_block g now home_tm away_tm bookmaker_data =
     (if \<not> truthy_str (bm_key bookmaker_data) then Inr None
      else
        let bookmaker_key = (case bm_key bookmaker_data of Some k \<Rightarrow> k | None \<Rightarrow> [])
        in if ALL_BOOKS \<noteq> [] \<and> bookmaker_key \<notin> set ALL_BOOKS then Inr None
           else case bm_markets bookmaker_data of
                  [] \<Rightarrow> Inr None
                | mkt # _ \<Rightarrow>
                    if m_outcomes mkt = [] then Inr None
                    else
                      let om = outcome_map (m_outcomes mkt);
                          h_odds = dict_get om (Some home_tm);
                          a_odds = dict_get om (Some away_tm);
                          d_odds = dict_get om (Some ''Draw'')
                      in if \<not> truthy_num h_odds \<or> \<not> truthy_num a_odds then Inr None
                         else
                           bind_res (py_div 1 (or_zero h_odds)) (\<lambda>home_prob.
                           bind_res (py_div 1 (or_zero a_odds)) (\<lambda>away_prob.
                           bind_res (if truthy_num d_odds
                                     then map_sum id Some (py_div 1 (or_zero d_odds))
                                     else Inr None) (\<lambda>draw_prob.
                           Inr (Some \<lparr>game_id = g_id g,
                                      bookmaker = bookmaker_key,
                                      home_odds = or_zero h_odds,
                                      away_odds = or_zero a_odds,
                                      draw_odds = d_odds,
                                      home_implied_prob = home_prob,
                                      away_implied_prob = away_prob,
                                      draw_implied_prob = draw_prob,
                                      snapshot_time = now\<rparr>)))))"

fun add_snapshots :: "game \<Rightarrow> nat \<Rightarrow> string \<Rightarrow> string \<Rightarrow> bookmaker_data list
    \<Rightarrow> odds_snapshot list \<Rightarrow> nat \<Rightarrow> py_error option \<times> odds_snapshot list \<times> nat" where
  \<comment> \<open>the loop over \<open>bookmakers\<close>: the rows added to the session so far and the running
      \<open>ingested_count\<close>, which an exception leaves as it stands\<close>
  "add_snapshots g now home_tm away_tm [] pending ingested_count =
     (None, pending, ingested_count)"
| "add_snapshots g now home_tm away_tm (bookmaker_data # rest) pending ingested_count =
     (case snapshot_of_block g now home_tm away_tm bookmaker_data of
        Inl e \<Rightarrow> (Some e, pending, ingested_count)
      | Inr None \<Rightarrow> add_snapshots g now home_tm away_tm rest pending ingested_count
      | Inr (Some snapshot) \<Rightarrow>
          add_snapshots g now home_tm away_tm rest (pending @ [snapshot])
            (ingested_count + 1))"

definition next_game_id :: "game list \<Rightarrow> nat" where
  \<comment> \<open>the integer primary key the database assigns to a new row\<close>
  "next_game_id gs = Suc (foldr max (map g_id gs) 0)"

definition commit_game :: "store \<Rightarrow> game \<Rightarrow> py_error + store" where
  \<comment> \<open>\<open>db.add(game); db.commit()\<close> under the unique index on \<open>odds_api_id\<close>\<close>
  "commit_game db g =
     (if odds_api_id g \<in> set (map odds_api_id (games db)) then Inl IntegrityError
      else Inr (db\<lparr>games := games db @ [g]\<rparr>))"

definition commit_snapshots ::
  "(odds_snapshot list \<Rightarrow> odds_snapshot list \<Rightarrow> bool) \<Rightarrow> store \<Rightarrow> odds_snapshot list
    \<Rightarrow> py_error + store" where
  \<comment> \<open>\<open>db.commit()\<close> of the pending snapshots: one transaction, all rows or none.
      \<open>rejects stored pending\<close> is the database's verdict (the constraint behind the
      \<open>IntegrityError\<close> handler); it is a parameter of the model.\<close>
  "commit_snapshots rejects db pending =
     (if rejects (odds_snapshots db) pending then Inl IntegrityError
      else Inr (db\<lparr>odds_snapshots := odds_snapshots db @ pending\<rparr>))"

definition try_event ::
  "(odds_snapshot list \<Rightarrow> odds_snapshot list \<Rightarrow> bool) \<Rightarrow> (string \<Rightarrow> nat option) \<Rightarrow> string
    \<Rightarrow> nat \<Rightarrow> event \<Rightarrow> store \<Rightarrow> nat \<Rightarrow> py_error option \<times> store \<times> nat" where
  \<comment> \<open>the body of the \<open>try\<close>: the exception raised (if any), the committed store and
      \<open>ingested_count\<close> when the body is left.  \<open>fromisoformat\<close> is
      \<open>datetime.fromisoformat\<close>, \<open>None\<close> where it raises \<open>ValueError\<close>.\<close>
  "try_event rejects fromisoformat sport now ev db ingested_count =
     (if \<not> (truthy_str (ev_id ev) \<and> truthy_str (ev_home_team ev)
             \<and> truthy_str (ev_away_team ev) \<and> truthy_str (ev_commence_time ev))
      then (None, db, ingested_count)
      else
        let event_id = (case ev_id ev of Some x \<Rightarrow> x | None \<Rightarrow> []);
            home_tm = (case ev_home_team ev of Some x \<Rightarrow> x | None \<Rightarrow> []);
            away_tm = (case ev_away_team ev of Some x \<Rightarrow> x | None \<Rightarrow> []);
            commence_time_str = (case ev_commence_time ev of Some x \<Rightarrow> x | None \<Rightarrow> [])
        in case fromisoformat (replace_Z commence_time_str) of
             None \<Rightarrow> (Some ValueError, db, ingested_count)
           | Some ct \<Rightarrow>
               (case (case find (\<lambda>g. odds_api_id g = event_id) (games db) of
                        None \<Rightarrow>
                          (let g = \<lparr>g_id = next_game_id (games db),
                                    odds_api_id = event_id,
                                    league = upper sport,
                                    home_team = home_tm,
                                    away_team = away_tm,
                                    commence_time = ct,
                                    g_result = None\<rparr>
                           in map_sum id (\<lambda>db'. (db', g)) (commit_game db g))
                      | Some existing \<Rightarrow> Inr (db, existing)) of
                  Inl e \<Rightarrow> (Some e, db, ingested_count)
                | Inr (db1, g) \<Rightarrow>
                    if ev_bookmakers ev = [] then (None, db1, ingested_count)
                    else
                      (case add_snapshots g now home_tm away_tm (ev_bookmakers ev) []
                              ingested_count of
                         (Some e, pending, n) \<Rightarrow> (Some e, db1, n)
                       | (None, pending, n) \<Rightarrow>
                           (case commit_snapshots rejects db1 pending of
                              Inl e \<Rightarrow> (Some e, db1, n)
                            | Inr db2 \<Rightarrow> (None, db2, n)))))"

definition ingest_event ::
  "(odds_snapshot list \<Rightarrow> odds_snapshot list \<Rightarrow> bool) \<Rightarrow> (string \<Rightarrow> nat option) \<Rightarrow> string
    \<Rightarrow> nat \<Rightarrow> event \<Rightarrow> store \<times> nat \<Rightarrow> store \<times> nat" where
  \<comment> \<open>\<open>try\<close> with its two handlers: both call \<open>db.rollback()\<close>, which drops the rows
      added since the last commit, and the loop goes on\<close>
  "ingest_event rejects fromisoformat sport now ev st =
     (case try_event rejects fromisoformat sport now ev (fst st) (snd st) of
        (exc, db', n) \<Rightarrow> (db', n))"

definition ingest_odds ::
  "(odds_snapshot list \<Rightarrow> odds_snapshot list \<Rightarrow> bool) \<Rightarrow> (string \<Rightarrow> nat option) \<Rightarrow> string
    \<Rightarrow> nat \<Rightarrow> event list \<Rightarrow> store \<Rightarrow> store \<times> nat" where
  \<comment> \<open>\<open>events\<close> is what \<open>get_upcoming_odds(sport)\<close> returned; the result is the store
      after the call and the returned count\<close>
  "ingest_odds rejects fromisoformat sport now events db =
     (if events = [] then (db, 0)
      else fold (ingest_event rejects fromisoformat sport now) events (db, 0))"

section \<open>Vocabulary of the statements\<close>

definition sharp_snapshots_of :: "store \<Rightarrow> nat \<Rightarrow> odds_snapshot list" where
  \<comment> \<open>the stored snapshots of a game that come from a sharp bookmaker, in storage order\<close>
  "sharp_snapshots_of db gid =
     filter (\<lambda>s. game_id s = gid \<and> bookmaker s \<in> set [''pinnacle'', ''betfair''])
            (odds_snapshots db)"

definition disc_ok :: "consensus \<Rightarrow> discrepancy \<Rightarrow> bool" where
  \<comment> \<open>a discrepancy record agrees with the consensus it was computed from\<close>
  "disc_ok c d \<longleftrightarrow>
     d_edge_percent d = (d_offered_odds d / d_fair_odds d - 1) * 100
     \<and> (d_selection d = ''Home'' \<and> d_fair_odds d = 1 / home_probability c
        \<or> d_selection d = ''Away'' \<and> d_fair_odds d = 1 / away_probability c)"

definition bet_ok :: "store \<Rightarrow> value_bet \<Rightarrow> bool" where
  \<comment> \<open>a value-bet row is consistent with itself and with the stored consensus\<close>
  "bet_ok db vb \<longleftrightarrow>
     fair_odds vb = 1 / my_probability vb
     \<and> edge_percent vb = (offered_odds vb / fair_odds vb - 1) * 100
     \<and> (\<exists>c. get_market_consensus db (vb_game_id vb) True = Inr (Some c)
            \<and> my_probability vb = (if betting_selection vb = ''Home''
                                    then home_probability c else away_probability c))"



definition block_price :: "string \<Rightarrow> bookmaker_data \<Rightarrow> real option" where
  \<comment> \<open>the price a block quotes for an outcome name: what \<open>outcome_map.get(name)\<close>
      reads from its first market\<close>
  "block_price nm b =
     (case bm_markets b of
        [] \<Rightarrow> None
      | mkt # _ \<Rightarrow> dict_get (outcome_map (m_outcomes mkt)) (Some nm))"

definition snapshot_quoted :: "string \<Rightarrow> string \<Rightarrow> bookmaker_data \<Rightarrow> odds_snapshot \<Rightarrow> bool" where
  \<comment> \<open>the snapshot carries the bookmaker key and the two prices of the block\<close>
  "snapshot_quoted home_tm away_tm b s \<longleftrightarrow>
     bm_key b = Some (bookmaker s)
     \<and> block_price home_tm b = Some (home_odds s)
     \<and> block_price away_tm b = Some (away_odds s)"

definition snapshot_sound :: "odds_snapshot \<Rightarrow> bool" where
  \<comment> \<open>nonzero odds, implied probabilities their reciprocals, inside (0, 1) exactly
      for odds above 1\<close>
  "snapshot_sound s \<longleftrightarrow>
     home_odds s \<noteq> 0 \<and> away_odds s \<noteq> 0
     \<and> home_implied_prob s = 1 / home_odds s
     \<and> away_implied_prob s = 1 / away_odds s
     \<and> ((0 < home_implied_prob s \<and> home_implied_prob s < 1) = (1 < home_odds s))
     \<and> ((0 < away_implied_prob s \<and> away_implied_prob s < 1) = (1 < away_odds s))"

definition event_quotes :: "event \<Rightarrow> odds_snapshot \<Rightarrow> bool" where
  \<comment> \<open>some bookmaker block of the event quotes the snapshot\<close>
  "event_quotes ev s \<longleftrightarrow>
     (case (ev_home_team ev, ev_away_team ev) of
        (Some h, Some a) \<Rightarrow> list_ex (\<lambda>b. snapshot_quoted h a b s) (ev_bookmakers ev)
      | _ \<Rightarrow> False)"

definition no_constraint :: "odds_snapshot list \<Rightarrow> odds_snapshot list \<Rightarrow> bool" where
  \<comment> \<open>the schema of models/database.py: no constraint on \<open>odds_snapshots\<close>\<close>
  "no_constraint stored pending = False"


section \<open>Example data\<close>

definition ex_pinnacle :: odds_snapshot where
  "ex_pinnacle = \<lparr>game_id = 1, bookmaker = ''pinnacle'', home_odds = 8/5, away_odds = 2,
     draw_odds = None, home_implied_prob = 5/8, away_implied_prob = 1/2,
     draw_implied_prob = None, snapshot_time = 1\<rparr>"

definition ex_pinnacle_draw :: odds_snapshot where
  "ex_pinnacle_draw = \<lparr>game_id = 1, bookmaker = ''pinnacle'', home_odds = 2, away_odds = 4,
     draw_odds = Some 4, home_implied_prob = 1/2, away_implied_prob = 1/4,
     draw_implied_prob = Some (1/4), snapshot_time = 2\<rparr>"

definition ex_draftkings :: odds_snapshot where
  "ex_draftkings = \<lparr>game_id = 1, bookmaker = ''draftkings'', home_odds = 2, away_odds = 2,
     draw_odds = None, home_implied_prob = 1/2, away_implied_prob = 1/2,
     draw_implied_prob = None, snapshot_time = 1\<rparr>"

definition ex_db_sharp :: store where
  "ex_db_sharp = \<lparr>games = [], odds_snapshots = [ex_pinnacle], value_bets = []\<rparr>"

definition ex_db_mixed :: store where
  "ex_db_mixed = \<lparr>games = [], odds_snapshots = [ex_pinnacle, ex_pinnacle_draw], value_bets = []\<rparr>"

definition ex_db_mixed_late :: store where
  "ex_db_mixed_late = \<lparr>games = [],
     odds_snapshots = [ex_pinnacle\<lparr>snapshot_time := 3\<rparr>, ex_pinnacle_draw], value_bets = []\<rparr>"

definition ex_db_soft_only :: store where
  "ex_db_soft_only = \<lparr>games = [], odds_snapshots = [ex_draftkings], value_bets = []\<rparr>"

definition ex_game :: game where
  "ex_game = \<lparr>g_id = 1, odds_api_id = ''e1'', league = ''NBA'', home_team = ''A'',
     away_team = ''B'', commence_time = 10, g_result = None\<rparr>"

definition ex_db_value :: store where
  "ex_db_value = \<lparr>games = [ex_game], odds_snapshots = [ex_pinnacle, ex_draftkings],
     value_bets = []\<rparr>"

definition ex_value_bet :: value_bet where
  "ex_value_bet = \<lparr>vb_game_id = 1, vb_home_team = ''A'', vb_away_team = ''B'',
     betting_selection = ''Home'', my_probability = 5/8, market_probability = 5/8,
     offered_odds = 2, fair_odds = 8/5, edge_percent = 25, vb_bookmaker = ''draftkings'',
     kelly_fraction = 1/4, recommended_stake = 50, identified_at = 3,
     is_bet_placed = False, vb_result = None\<rparr>"



definition ex_fromisoformat :: "string \<Rightarrow> nat option" where
  "ex_fromisoformat str = (if str = ''2026-01-01T00:00:00+00:00'' then Some 10 else None)"

definition ex_block_pinnacle :: bookmaker_data where
  "ex_block_pinnacle = \<lparr>bm_key = Some ''pinnacle'', bm_markets = [\<lparr>m_outcomes =
     [\<lparr>o_name = Some ''A'', o_price = Some (8/5)\<rparr>,
      \<lparr>o_name = Some ''B'', o_price = Some 2\<rparr>]\<rparr>]\<rparr>"

definition ex_block_draftkings :: bookmaker_data where
  "ex_block_draftkings = \<lparr>bm_key = Some ''draftkings'', bm_markets = [\<lparr>m_outcomes =
     [\<lparr>o_name = Some ''A'', o_price = Some 2\<rparr>,
      \<lparr>o_name = Some ''B'', o_price = Some 2\<rparr>]\<rparr>]\<rparr>"

definition ex_block_negative :: bookmaker_data where
  "ex_block_negative = \<lparr>bm_key = Some ''pinnacle'', bm_markets = [\<lparr>m_outcomes =
     [\<lparr>o_name = Some ''A'', o_price = Some (- 2)\<rparr>,
      \<lparr>o_name = Some ''B'', o_price = Some 2\<rparr>]\<rparr>]\<rparr>"

definition ex_event :: event where
  "ex_event = \<lparr>ev_id = Some ''e1'', ev_home_team = Some ''A'', ev_away_team = Some ''B'',
     ev_commence_time = Some ''2026-01-01T00:00:00Z'',
     ev_bookmakers = [ex_block_pinnacle, ex_block_draftkings]\<rparr>"

definition ex_event_negative :: event where
  "ex_event_negative = ex_event\<lparr>ev_bookmakers := [ex_block_negative]\<rparr>"

definition ex_db_empty :: store where
  "ex_db_empty = \<lparr>games = [], odds_snapshots = [], value_bets = []\<rparr>"

definition ex_negative_snapshot :: odds_snapshot where
  "ex_negative_snapshot = \<lparr>game_id = 1, bookmaker = ''pinnacle'', home_odds = - 2,
     away_odds = 2, draw_odds = None, home_implied_prob = - (1/2), away_implied_prob = 1/2,
     draw_implied_prob = None, snapshot_time = 7\<rparr>"

section \<open>Auxiliary facts\<close>

lemma bind_res_simps:
  "bind_res (Inl e) f = Inl e"
  "bind_res (Inr x) f = f x"
  by (simp_all add: bind_res_def)

lemma bind_res_Inr_iff:
  "bind_res r f = Inr y \<longleftrightarrow> (\<exists>x. r = Inr x \<and> f x = Inr y)"
  by (cases r) (simp_all add: bind_res_def)

lemma sum_list_map_insort_key:
  fixes f :: "'a \<Rightarrow> real"
  shows "sum_list (map f (insort_key k x xs)) = f x + sum_list (map f xs)"
  by (induction xs) simp_all

lemma sum_list_map_sort_key:
  fixes f :: "'a \<Rightarrow> real"
  shows "sum_list (map f (sort_key k xs)) = sum_list (map f xs)"
  by (induction xs) (simp_all add: sum_list_map_insort_key)

lemma sum_list_map_latest:
  fixes f :: "odds_snapshot \<Rightarrow> real"
  shows "sum_list (map f (filter P (get_latest_snapshot_for_game db gid)))
       = sum_list (map f (filter (\<lambda>s. game_id s = gid \<and> P s) (odds_snapshots db)))"
proof -
  define xs where "xs = filter (\<lambda>s. game_id s = gid) (odds_snapshots db)"
  have "filter P (rev (sort_key snapshot_time xs)) = rev (sort_key snapshot_time (filter P xs))"
    by (simp add: rev_filter [symmetric] filter_sort)
  then have "sum_list (map f (filter P (rev (sort_key snapshot_time xs))))
        = sum_list (rev (map f (sort_key snapshot_time (filter P xs))))"
    by (simp add: rev_map)
  also have "\<dots> = sum_list (map f (filter P xs))"
    by (simp only: sum_list_rev sum_list_map_sort_key)
  finally show ?thesis
    by (simp add: get_latest_snapshot_for_game_def xs_def conj_commute)
qed

lemma length_filter_latest:
  "length (filter P (get_latest_snapshot_for_game db gid))
       = length (filter (\<lambda>s. game_id s = gid \<and> P s) (odds_snapshots db))"
  using sum_list_map_latest [of "\<lambda>_. 1" P db gid]
  by (simp add: sum_list_triv)

lemma set_latest:
  "set (get_latest_snapshot_for_game db gid) = {s \<in> set (odds_snapshots db). game_id s = gid}"
  by (auto simp: get_latest_snapshot_for_game_def)

lemma those_all_None:
  "xs \<noteq> [] \<Longrightarrow> \<forall>x\<in>set xs. f x = None \<Longrightarrow> those (map f xs) = None"
  by (cases xs) simp_all

lemma those_all_Some:
  "\<forall>x\<in>set xs. f x \<noteq> None \<Longrightarrow> those (map f xs) = Some (map (\<lambda>x. the (f x)) xs)"
  by (induction xs) auto

lemma set_filter_latest:
  "set (filter P (get_latest_snapshot_for_game db gid))
     = set (filter (\<lambda>s. game_id s = gid \<and> P s) (odds_snapshots db))"
  by (auto simp: set_latest)

section \<open>Stake sizer: bounds\<close>

text \<open>
  C5. For a win probability in [0, 1], any decimal odds, a bankroll and a Kelly fraction
  that are not negative, \<open>calculate_kelly_bet\<close> returns (it does not raise) a stake
  between 0 and \<open>bankroll * MAX_BET_PERCENT\<close>, and the stake is exactly 0 whenever
  the odds are at most 1 or the full-Kelly fraction \<open>(b * p - q) / b\<close> is negative.
\<close>

theorem calculate_kelly_bet_bounded:
  assumes "0 \<le> p" and "p \<le> 1" and "0 \<le> bankroll" and "0 \<le> kf"
  shows "\<exists>v. calculate_kelly_bet p odds bankroll kf = Inr v
             \<and> 0 \<le> v \<and> v \<le> bankroll * MAX_BET_PERCENT
             \<and> (odds \<le> 1 \<or> ((odds - 1) * p - (1 - p)) / (odds - 1) < 0 \<longrightarrow> v = 0)"
proof (cases "odds \<le> 1")
  case True
  with assms show ?thesis
    by (simp add: calculate_kelly_bet_def MAX_BET_PERCENT_def)
next
  case False
  define fk where "fk = ((odds - 1) * p - (1 - p)) / (odds - 1)"
  define v where "v = max 0 (min (bankroll * max 0 (fk * kf)) (bankroll * MAX_BET_PERCENT))"
  from False have run: "calculate_kelly_bet p odds bankroll kf = Inr v"
    by (simp add: calculate_kelly_bet_def py_div_def bind_res_simps Let_def v_def fk_def)
  have cap: "0 \<le> bankroll * MAX_BET_PERCENT"
    using assms(3) by (simp add: MAX_BET_PERCENT_def)
  have lo: "0 \<le> v" by (simp add: v_def)
  have hi: "v \<le> bankroll * MAX_BET_PERCENT"
    using cap by (simp add: v_def)
  have zero: "v = 0" if "fk < 0"
  proof -
    from that assms(4) have "fk * kf \<le> 0"
      by (simp add: mult_le_0_iff)
    then have "max 0 (fk * kf) = 0" by simp
    then show ?thesis using cap by (simp add: v_def)
  qed
  from run lo hi zero False show ?thesis
    by (auto simp: fk_def)
qed

theorem calculate_kelly_bet_bounded_witness:
  "calculate_kelly_bet (3/5) (9/5) 1000 (1/4) = Inr 25
   \<and> calculate_kelly_bet (1/4) 2 1000 (1/4) = Inr 0"
  using calculate_kelly_bet_bounded [of "3/5" 1000 "1/4" "9/5"]
        calculate_kelly_bet_bounded [of "1/4" 1000 "1/4" 2]
  by (simp add: calculate_kelly_bet_def py_div_def bind_res_simps MAX_BET_PERCENT_def)

section \<open>Vig removal on fair inputs\<close>

text \<open>
  C9. \<open>remove_vig\<close> is the identity on already-fair inputs: when home, away and the
  optional draw probability sum to exactly 1, it returns the same three values and
  reports zero vig removed.
\<close>

theorem remove_vig_fair_identity:
  assumes "home_prob + away_prob + (case draw_prob of None \<Rightarrow> 0 | Some d \<Rightarrow> d) = 1"
  shows "remove_vig home_prob away_prob draw_prob =
           Inr \<lparr>fp_home = home_prob, fp_away = away_prob, fp_draw = draw_prob,
                 vig_removed = 0\<rparr>
         \<and> vig (calculate_vig home_prob away_prob draw_prob) = 0"
  using assms
  by (cases draw_prob) (simp_all add: remove_vig_def calculate_vig_def or_zero_def Let_def)

theorem remove_vig_fair_identity_witness:
  "remove_vig (1/2) (1/4) (Some (1/4)) =
     Inr \<lparr>fp_home = 1/2, fp_away = 1/4, fp_draw = Some (1/4), vig_removed = 0\<rparr>
   \<and> remove_vig (1/2) (1/2) None =
     Inr \<lparr>fp_home = 1/2, fp_away = 1/2, fp_draw = None, vig_removed = 0\<rparr>"
  using remove_vig_fair_identity [of "1/2" "1/4" "Some (1/4)"]
        remove_vig_fair_identity [of "1/2" "1/2" None]
  by simp

section \<open>Consensus: no data without sharp snapshots\<close>

text \<open>
  C6. For a game with no sharp-bookmaker snapshot in storage, \<open>get_market_consensus\<close>
  returns the absent value \<open>None\<close> (no exception, no record and so no zero-valued
  probability) and \<open>identify_soft_book_discrepancies\<close> returns the empty list.
\<close>

theorem no_sharp_snapshots_no_data:
  assumes "sharp_snapshots_of db gid = []"
  shows "get_market_consensus db gid True = Inr None
       \<and> identify_soft_book_discrepancies db gid min_edge_percent = Inr []"
proof -
  have "length (filter (\<lambda>s. bookmaker s \<in> set [''pinnacle'', ''betfair''])
           (get_latest_snapshot_for_game db gid)) = 0"
    using assms unfolding length_filter_latest sharp_snapshots_of_def by simp
  then have empty: "filter (\<lambda>s. bookmaker s \<in> set [''pinnacle'', ''betfair''])
           (get_latest_snapshot_for_game db gid) = []"
    by simp
  have c: "get_market_consensus db gid True = Inr None"
    unfolding get_market_consensus_def Let_def using empty by simp
  then show ?thesis
    by (simp add: identify_soft_book_discrepancies_def bind_res_simps)
qed


theorem no_sharp_snapshots_no_data_witness:
  "sharp_snapshots_of ex_db_soft_only 1 = []
   \<and> get_market_consensus ex_db_soft_only 1 True = Inr None
   \<and> identify_soft_book_discrepancies ex_db_soft_only 1 5 = Inr []"
proof -
  have h: "sharp_snapshots_of ex_db_soft_only 1 = []"
    by (simp add: sharp_snapshots_of_def ex_db_soft_only_def ex_draftkings_def)
  from no_sharp_snapshots_no_data [OF h, of 5] h show ?thesis by simp
qed

section \<open>Consensus: the raw mean, not the de-vigged one\<close>

text \<open>
  C1, as the claim states it, fails.  The store holds one Pinnacle snapshot with implied
  probabilities 5/8 and 1/2: their sum is 9/8, the vig 1/8, and the de-vigged home
  probability the claim asks for is (5/8) / (1 + 1/8) = 5/9, which is also what
  \<open>remove_vig\<close> computes.  \<open>get_market_consensus\<close> returns 5/8: it never calls
  \<open>remove_vig\<close>.
\<close>

theorem get_market_consensus_not_devigged:
  "get_market_consensus ex_db_sharp 1 True =
     Inr (Some \<lparr>home_probability = 5/8, away_probability = 1/2, draw_probability = None,
                source_count = 1, consensus_type = ''sharp''\<rparr>)
   \<and> remove_vig (5/8) (1/2) None =
     Inr \<lparr>fp_home = 5/9, fp_away = 4/9, fp_draw = None, vig_removed = 100/9\<rparr>"
  by (simp add: get_market_consensus_def get_latest_snapshot_for_game_def ex_db_sharp_def
        ex_pinnacle_def
        remove_vig_def calculate_vig_def or_zero_def py_div_def bind_res_simps)

text \<open>
  C1, amended.  For a game with at least one sharp snapshot, whose sharp snapshots either
  all carry a draw probability or all carry none, \<open>get_market_consensus\<close> returns a
  record whose home, away and draw probabilities are the arithmetic means of the stored
  implied probabilities over all sharp snapshots of the game (the draw is absent when no
  snapshot carries one), not divided by \<open>1 + vig\<close>; \<open>source_count\<close> is their number.
\<close>

theorem get_market_consensus_raw_mean:
  assumes nonempty: "sharp_snapshots_of db gid \<noteq> []"
      and uniform: "(\<forall>s\<in>set (sharp_snapshots_of db gid). draw_implied_prob s = None)
                  \<or> (\<forall>s\<in>set (sharp_snapshots_of db gid). draw_implied_prob s \<noteq> None)"
  shows "\<exists>c. get_market_consensus db gid True = Inr (Some c)
           \<and> home_probability c
               = sum_list (map home_implied_prob (sharp_snapshots_of db gid))
                   / real (length (sharp_snapshots_of db gid))
           \<and> away_probability c
               = sum_list (map away_implied_prob (sharp_snapshots_of db gid))
                   / real (length (sharp_snapshots_of db gid))
           \<and> draw_probability c
               = map_option (\<lambda>ds. sum_list ds / real (length (sharp_snapshots_of db gid)))
                   (those (map draw_implied_prob (sharp_snapshots_of db gid)))
           \<and> source_count c = length (sharp_snapshots_of db gid)"
proof -
  define sharp where "sharp = sharp_snapshots_of db gid"
  define L where "L = filter (\<lambda>s. bookmaker s \<in> set [''pinnacle'', ''betfair''])
                        (get_latest_snapshot_for_game db gid)"
  have len: "length L = length sharp"
    unfolding L_def sharp_def sharp_snapshots_of_def by (rule length_filter_latest)
  have sums: "sum_list (map f L) = sum_list (map f sharp)" for f :: "odds_snapshot \<Rightarrow> real"
    unfolding L_def sharp_def sharp_snapshots_of_def by (rule sum_list_map_latest)
  have sets: "set L = set sharp"
    unfolding L_def sharp_def sharp_snapshots_of_def by (rule set_filter_latest)
  from nonempty len have Lne: "L \<noteq> []" and pos: "real (length L) \<noteq> 0"
    by (auto simp: sharp_def)
  from Lne have hd_in: "hd L \<in> set L" by simp
  have latest_ne: "get_latest_snapshot_for_game db gid \<noteq> []"
    using Lne unfolding L_def by auto
  define draw_part where "draw_part =
     (if draw_implied_prob (hd L) \<noteq> None
      then bind_res (py_sum (map draw_implied_prob L)) (\<lambda>t.
             map_sum id Some (py_div t (real (length L))))
      else Inr None)"
  have draw: "draw_part = Inr (map_option (\<lambda>ds. sum_list ds / real (length sharp))
                                 (those (map draw_implied_prob sharp)))"
    using uniform unfolding sharp_def [symmetric]
  proof
    assume none: "\<forall>s\<in>set sharp. draw_implied_prob s = None"
    with sets hd_in have "draw_implied_prob (hd L) = None" by auto
    moreover from none nonempty have "those (map draw_implied_prob sharp) = None"
      by (simp add: those_all_None sharp_def)
    ultimately show ?thesis by (simp add: draw_part_def)
  next
    assume some: "\<forall>s\<in>set sharp. draw_implied_prob s \<noteq> None"
    with sets have someL: "\<forall>s\<in>set L. draw_implied_prob s \<noteq> None" by simp
    with hd_in have s0: "draw_implied_prob (hd L) \<noteq> None" by auto
    have "py_sum (map draw_implied_prob L)
            = Inr (sum_list (map (\<lambda>s. the (draw_implied_prob s)) sharp))"
      by (simp add: py_sum_def those_all_Some [OF someL] sums)
    with s0 pos show ?thesis
      by (simp add: draw_part_def those_all_Some [OF some] bind_res_simps py_div_def len)
  qed
  have "get_market_consensus db gid True =
          bind_res (py_div (sum_list (map home_implied_prob L)) (real (length L)))
            (\<lambda>avg_home_prob.
          bind_res (py_div (sum_list (map away_implied_prob L)) (real (length L)))
            (\<lambda>avg_away_prob.
          bind_res draw_part (\<lambda>avg_draw_prob.
          Inr (Some \<lparr>home_probability = avg_home_prob,
                     away_probability = avg_away_prob,
                     draw_probability = avg_draw_prob,
                     source_count = length L,
                     consensus_type = ''sharp''\<rparr>))))"
    unfolding get_market_consensus_def Let_def if_True L_def [symmetric] draw_part_def
    using latest_ne Lne by (simp only: if_False list.case_eq_if)
  then show ?thesis
    using pos by (simp add: draw py_div_def bind_res_simps sums len sharp_def)
qed


theorem get_market_consensus_raw_mean_witness:
  "sharp_snapshots_of ex_db_sharp 1 = [ex_pinnacle]
   \<and> map_sum id (map_option home_probability) (get_market_consensus ex_db_sharp 1 True)
       = Inr (Some (5/8))"
proof -
  have h: "sharp_snapshots_of ex_db_sharp 1 = [ex_pinnacle]"
    by (simp add: sharp_snapshots_of_def ex_db_sharp_def) (simp add: ex_pinnacle_def)
  have d: "draw_implied_prob ex_pinnacle = None" "home_implied_prob ex_pinnacle = 5/8"
    by (simp_all add: ex_pinnacle_def)
  from get_market_consensus_raw_mean [of ex_db_sharp 1] h d show ?thesis
    by auto
qed

section \<open>Consensus: snapshots with and without a draw price\<close>

text \<open>
  C4. The claim says the call never raises whatever mixture of with-draw and without-draw
  snapshots is stored, and that the draw probability is present as soon as one snapshot
  carries a draw price.  Game 1 has two Pinnacle snapshots, one with a draw probability
  and one without.  When the one with the draw probability is the later, the test on
  \<open>snapshots[0]\<close> passes and \<open>sum\<close> then adds \<open>None\<close>: the call raises
  \<open>TypeError\<close>.  When it is the earlier, the test fails and the draw probability is
  absent although a snapshot carries a draw price.
\<close>

theorem get_market_consensus_mixed_draw_raises:
  "get_market_consensus ex_db_mixed 1 True = Inl TypeError
   \<and> map_sum id (map_option draw_probability) (get_market_consensus ex_db_mixed_late 1 True)
       = Inr (Some None)"
  by (simp add: get_market_consensus_def get_latest_snapshot_for_game_def ex_db_mixed_def
        ex_db_mixed_late_def ex_pinnacle_def ex_pinnacle_draw_def py_sum_def py_div_def
        bind_res_simps)

section \<open>Value bets: consistency of the stored fields\<close>

lemma check_snapshot_ok:
  assumes "check_snapshot c m snap acc = Inr ds" and "\<forall>d\<in>set acc. disc_ok c d"
  shows "\<forall>d\<in>set ds. disc_ok c d"
  using assms
  by (auto simp: check_snapshot_def bind_res_Inr_iff py_div_def Let_def disc_ok_def
           split: if_splits)

lemma check_snapshots_ok:
  assumes "check_snapshots c m snaps acc = Inr ds" and "\<forall>d\<in>set acc. disc_ok c d"
  shows "\<forall>d\<in>set ds. disc_ok c d"
  using assms
proof (induction snaps arbitrary: acc)
  case Nil
  then show ?case by simp
next
  case (Cons snap rest)
  from Cons.prems(1) obtain mid where
    mid: "check_snapshot c m snap acc = Inr mid" and
    rest: "check_snapshots c m rest mid = Inr ds"
    by (auto simp: bind_res_Inr_iff)
  from Cons.IH [OF rest check_snapshot_ok [OF mid Cons.prems(2)]] show ?case .
qed

lemma identify_ok:
  assumes "identify_soft_book_discrepancies db gid m = Inr ds"
      and "get_market_consensus db gid True = Inr (Some c)"
  shows "\<forall>d\<in>set ds. disc_ok c d"
proof -
  from assms obtain snaps where "check_snapshots c m snaps [] = Inr ds"
    by (auto simp: identify_soft_book_discrepancies_def Let_def bind_res_simps)
  from check_snapshots_ok [OF this] show ?thesis by simp
qed

lemma make_value_bet_ok:
  assumes "make_value_bet now g c minp d = Inr (Some vb)"
      and "disc_ok c d"
      and "get_market_consensus db (g_id g) True = Inr (Some c)"
  shows "bet_ok db vb"
  using assms
  by (auto simp: make_value_bet_def Let_def bind_res_Inr_iff bet_ok_def disc_ok_def
           split: if_splits)

lemma scan_discrepancies_ok:
  assumes "scan_discrepancies now g c minp ds acc = Inr bets"
      and "\<forall>d\<in>set ds. disc_ok c d"
      and "get_market_consensus db (g_id g) True = Inr (Some c)"
      and "\<forall>vb\<in>set acc. bet_ok db vb"
  shows "\<forall>vb\<in>set bets. bet_ok db vb"
  using assms
proof (induction ds arbitrary: acc)
  case Nil
  then show ?case by simp
next
  case (Cons d rest)
  from Cons.prems(1) obtain r where
    r: "make_value_bet now g c minp d = Inr r" and
    go: "scan_discrepancies now g c minp rest
           (case r of None \<Rightarrow> acc | Some vb \<Rightarrow> acc @ [vb]) = Inr bets"
    by (auto simp: bind_res_Inr_iff)
  have "\<forall>vb\<in>set (case r of None \<Rightarrow> acc | Some vb \<Rightarrow> acc @ [vb]). bet_ok db vb"
  proof (cases r)
    case None
    with Cons.prems(4) show ?thesis by simp
  next
    case (Some vb)
    with r Cons.prems(2,3) have "bet_ok db vb"
      by (auto intro: make_value_bet_ok)
    with Some Cons.prems(4) show ?thesis by simp
  qed
  with Cons.IH [OF go] Cons.prems(2,3) show ?case by simp
qed

lemma scan_games_ok:
  assumes "scan_games db now m minp gs acc = Inr bets"
      and "\<forall>vb\<in>set acc. bet_ok db vb"
  shows "\<forall>vb\<in>set bets. bet_ok db vb"
  using assms
proof (induction gs arbitrary: acc)
  case Nil
  then show ?case by simp
next
  case (Cons g rest)
  from Cons.prems(1) obtain cons where
    cons: "get_market_consensus db (g_id g) True = Inr cons"
    by (auto simp: bind_res_Inr_iff)
  show ?case
  proof (cases cons)
    case None
    with Cons.prems(1) cons have "scan_games db now m minp rest acc = Inr bets"
      by (simp add: bind_res_simps)
    from Cons.IH [OF this Cons.prems(2)] show ?thesis .
  next
    case (Some c)
    with Cons.prems(1) cons obtain ds mid where
      ds: "identify_soft_book_discrepancies db (g_id g) m = Inr ds" and
      mid: "scan_discrepancies now g c minp ds acc = Inr mid" and
      go: "scan_games db now m minp rest mid = Inr bets"
      by (auto simp: bind_res_Inr_iff bind_res_simps)
    from cons Some have c: "get_market_consensus db (g_id g) True = Inr (Some c)" by simp
    from scan_discrepancies_ok [OF mid identify_ok [OF ds c] c Cons.prems(2)]
    have "\<forall>vb\<in>set mid. bet_ok db vb" .
    from Cons.IH [OF go this] show ?thesis .
  qed
qed

lemma ex_find_value_bets_run: "find_value_bets ex_db_value 3 5 (35/100)
    = Inr ([ex_value_bet], ex_db_value\<lparr>value_bets := [ex_value_bet]\<rparr>)"
  by (simp add: find_value_bets_def ex_db_value_def ex_game_def ex_pinnacle_def
        ex_draftkings_def ex_value_bet_def get_market_consensus_def
        get_latest_snapshot_for_game_def identify_soft_book_discrepancies_def
        check_snapshot_def make_value_bet_def calculate_kelly_bet_def py_div_def
        bind_res_simps Let_def KELLY_FRACTION_def DEFAULT_BANKROLL_def MAX_BET_PERCENT_def)

text \<open>
  C7. Every \<open>ValueBet\<close> row that \<open>find_value_bets\<close> creates is consistent at
  construction: \<open>fair_odds = 1 / my_probability\<close>,
  \<open>edge_percent = (offered_odds / fair_odds - 1) * 100\<close>, and \<open>my_probability\<close> is the
  consensus probability of the game for the selected outcome (home for \<open>'Home'\<close>, away
  otherwise).  The rows created are exactly the returned list, appended to the table.
\<close>

theorem find_value_bets_consistent:
  assumes "find_value_bets db now min_edge_percent min_probability = Inr (bets, db')"
      and "vb \<in> set bets"
  shows "fair_odds vb = 1 / my_probability vb
       \<and> edge_percent vb = (offered_odds vb / fair_odds vb - 1) * 100
       \<and> (\<exists>c. get_market_consensus db (vb_game_id vb) True = Inr (Some c)
              \<and> my_probability vb = (if betting_selection vb = ''Home''
                                      then home_probability c else away_probability c))
       \<and> value_bets db' = value_bets db @ bets"
proof -
  from assms(1) obtain gs where
    scan: "scan_games db now min_edge_percent min_probability gs [] = Inr bets" and
    db': "db' = db\<lparr>value_bets := value_bets db @ bets\<rparr>"
    by (auto simp: find_value_bets_def Let_def bind_res_Inr_iff)
  from scan_games_ok [OF scan] assms(2) have "bet_ok db vb" by simp
  with db' show ?thesis by (simp add: bet_ok_def)
qed

theorem find_value_bets_consistent_witness:
  "find_value_bets ex_db_value 3 5 (35/100)
     = Inr ([ex_value_bet], ex_db_value\<lparr>value_bets := [ex_value_bet]\<rparr>)
   \<and> fair_odds ex_value_bet = 1 / my_probability ex_value_bet
   \<and> edge_percent ex_value_bet = (offered_odds ex_value_bet / fair_odds ex_value_bet - 1) * 100"
proof -
  have run: "find_value_bets ex_db_value 3 5 (35/100)
    = Inr ([ex_value_bet], ex_db_value\<lparr>value_bets := [ex_value_bet]\<rparr>)"
    by (rule ex_find_value_bets_run)
  have mem: "ex_value_bet \<in> set [ex_value_bet]" by simp
  from find_value_bets_consistent [OF run mem] run show ?thesis by simp
qed

section \<open>Edge detection: monotone in the offered odds\<close>












section \<open>Ingestion: what one event does to the store\<close>

lemma recip_unit_interval:
  fixes x :: real
  assumes "x \<noteq> 0"
  shows "(0 < 1 / x \<and> 1 / x < 1) = (1 < x)"
proof (cases "0 < x")
  case True
  then show ?thesis by (simp add: field_simps)
next
  case False
  with assms have "x < 0" by simp
  then have "1 / x < 0" by simp
  with \<open>x < 0\<close> show ?thesis by simp
qed

lemma snapshot_of_block_Some:
  assumes "snapshot_of_block g now h a b = Inr (Some s)"
  shows "snapshot_quoted h a b s \<and> snapshot_sound s \<and> game_id s = g_id g"
proof -
  from assms obtain k mkt rest where
    k: "bm_key b = Some k" and m: "bm_markets b = mkt # rest"
    by (cases "bm_key b"; cases "bm_markets b")
       (auto simp: snapshot_of_block_def truthy_str_def Let_def split: if_splits)
  define om where "om = outcome_map (m_outcomes mkt)"
  from assms k m obtain x y where
    x: "dict_get om (Some h) = Some x" "x \<noteq> 0" and
    y: "dict_get om (Some a) = Some y" "y \<noteq> 0"
    by (cases "dict_get om (Some h)"; cases "dict_get om (Some a)")
       (auto simp: snapshot_of_block_def truthy_str_def truthy_num_def Let_def om_def
             split: if_splits)
  from assms k m x y have
    "bookmaker s = k" "home_odds s = x" "away_odds s = y"
    "home_implied_prob s = 1 / x" "away_implied_prob s = 1 / y" "game_id s = g_id g"
    by (auto simp: snapshot_of_block_def truthy_str_def truthy_num_def Let_def om_def
          or_zero_def py_div_def bind_res_Inr_iff split: if_splits)
  with k m x y recip_unit_interval [of x] recip_unit_interval [of y] show ?thesis
    by (simp add: snapshot_quoted_def snapshot_sound_def block_price_def om_def)
qed


lemma add_snapshots_new:
  assumes "add_snapshots g now h a bs pending n = (e, pending', n')"
  shows "\<exists>new. pending' = pending @ new \<and> n' = n + length new
           \<and> (\<forall>s\<in>set new. game_id s = g_id g \<and> snapshot_sound s
                  \<and> (\<exists>b\<in>set bs. snapshot_quoted h a b s))"
  using assms
proof (induction bs arbitrary: pending n)
  case Nil
  then show ?case by simp
next
  case (Cons b bs)
  show ?case
  proof (cases "snapshot_of_block g now h a b")
    case (Inl err)
    with Cons.prems show ?thesis by simp
  next
    case (Inr r)
    show ?thesis
    proof (cases r)
      case None
      with Inr Cons.prems have "add_snapshots g now h a bs pending n = (e, pending', n')"
        by simp
      from Cons.IH [OF this] show ?thesis by auto
    next
      case (Some s)
      with Inr Cons.prems have
        "add_snapshots g now h a bs (pending @ [s]) (n + 1) = (e, pending', n')"
        by simp
      from Cons.IH [OF this] obtain new where
        new: "pending' = (pending @ [s]) @ new" "n' = n + 1 + length new"
             "\<forall>t\<in>set new. game_id t = g_id g \<and> snapshot_sound t
                  \<and> (\<exists>b\<in>set bs. snapshot_quoted h a b t)"
        by auto
      from Inr Some have "snapshot_of_block g now h a b = Inr (Some s)" by simp
      from snapshot_of_block_Some [OF this] new
      have "pending' = pending @ (s # new) \<and> n' = n + length (s # new)
           \<and> (\<forall>t\<in>set (s # new). game_id t = g_id g \<and> snapshot_sound t
                  \<and> (\<exists>b\<in>set (b # bs). snapshot_quoted h a b t))"
        by auto
      then show ?thesis by blast
    qed
  qed
qed

lemma try_event_effect:
  assumes "try_event rejects f sport now ev db n = (e, db', n')"
  shows "(games db' = games db
          \<or> (\<exists>g. games db' = games db @ [g]
                 \<and> odds_api_id g \<notin> set (map odds_api_id (games db))))
       \<and> value_bets db' = value_bets db
       \<and> (\<exists>new. odds_snapshots db' = odds_snapshots db @ new
              \<and> (\<forall>s\<in>set new. snapshot_sound s \<and> event_quotes ev s))"
proof (cases "truthy_str (ev_id ev) \<and> truthy_str (ev_home_team ev)
             \<and> truthy_str (ev_away_team ev) \<and> truthy_str (ev_commence_time ev)")
  case False
  with assms show ?thesis by (auto simp: try_event_def)
next
  case True
  then obtain i h a ct where
    fields: "ev_id ev = Some i" "ev_home_team ev = Some h" "ev_away_team ev = Some a"
            "ev_commence_time ev = Some ct"
    by (auto simp: truthy_str_def split: option.splits)
  show ?thesis
  proof (cases "f (replace_Z ct)")
    case None
    with assms True fields show ?thesis by (simp add: try_event_def)
  next
    case (Some t)
    define g0 where "g0 = \<lparr>g_id = next_game_id (games db), odds_api_id = i,
       league = upper sport, home_team = h, away_team = a, commence_time = t,
       g_result = None\<rparr>"
    define got where "got =
       (case find (\<lambda>g. odds_api_id g = i) (games db) of
          None \<Rightarrow> map_sum id (\<lambda>db'. (db', g0)) (commit_game db g0)
        | Some existing \<Rightarrow> Inr (db, existing))"
    have unfolded: "try_event rejects f sport now ev db n =
       (case got of
          Inl e \<Rightarrow> (Some e, db, n)
        | Inr (db1, g) \<Rightarrow>
            if ev_bookmakers ev = [] then (None, db1, n)
            else (case add_snapshots g now h a (ev_bookmakers ev) [] n of
                    (Some e, pending, k) \<Rightarrow> (Some e, db1, k)
                  | (None, pending, k) \<Rightarrow>
                      (case commit_snapshots rejects db1 pending of
                         Inl e \<Rightarrow> (Some e, db1, k)
                       | Inr db2 \<Rightarrow> (None, db2, k))))"
      unfolding try_event_def Let_def got_def g0_def fields option.case
      using True fields Some by simp
    have got_cases: "got = Inl IntegrityError
        \<or> (\<exists>g. got = Inr (db, g))
        \<or> (got = Inr (db\<lparr>games := games db @ [g0]\<rparr>, g0)
            \<and> i \<notin> set (map odds_api_id (games db)))"
      by (auto simp: got_def commit_game_def g0_def split: option.splits)
    show ?thesis
    proof (cases got)
      case (Inl err)
      with assms unfolded show ?thesis by simp
    next
      case (Inr p)
      obtain db1 g where p: "p = (db1, g)" by (cases p)
      from got_cases Inr p have db1: "db1 = db
          \<or> (db1 = db\<lparr>games := games db @ [g0]\<rparr> \<and> i \<notin> set (map odds_api_id (games db)))"
        by auto
      then have base: "(games db1 = games db
          \<or> (\<exists>g. games db1 = games db @ [g]
                 \<and> odds_api_id g \<notin> set (map odds_api_id (games db))))
          \<and> value_bets db1 = value_bets db \<and> odds_snapshots db1 = odds_snapshots db"
        by (auto simp: g0_def)
      show ?thesis
      proof (cases "ev_bookmakers ev = []")
        case True
        with assms unfolded Inr p base show ?thesis by auto
      next
        case False
        obtain e1 pending k where
          add: "add_snapshots g now h a (ev_bookmakers ev) [] n = (e1, pending, k)"
          by (cases "add_snapshots g now h a (ev_bookmakers ev) [] n") auto
        from add_snapshots_new [OF add] have
          pend: "\<forall>s\<in>set pending. snapshot_sound s \<and> event_quotes ev s"
          by (auto simp: event_quotes_def fields list_ex_iff)
        show ?thesis
        proof (cases "e1 = None \<and> \<not> rejects (odds_snapshots db1) pending")
          case True
          with assms unfolded Inr p False add
          have "db' = db1\<lparr>odds_snapshots := odds_snapshots db1 @ pending\<rparr>"
            by (auto simp: commit_snapshots_def)
          with base pend show ?thesis by auto
        next
          case False
          with assms unfolded Inr p \<open>ev_bookmakers ev \<noteq> []\<close> add
          have "db' = db1"
            by (cases e1) (auto simp: commit_snapshots_def)
          with base show ?thesis by auto
        qed
      qed
    qed
  qed
qed


lemma fold_ingest_snapshots:
  assumes "fold (ingest_event rejects f sport now) events st = st'"
  shows "\<exists>new. odds_snapshots (fst st') = odds_snapshots (fst st) @ new
           \<and> (\<forall>s\<in>set new. snapshot_sound s \<and> (\<exists>ev\<in>set events. event_quotes ev s))"
  using assms
proof (induction events arbitrary: st)
  case Nil
  then show ?case by simp
next
  case (Cons ev events)
  obtain e db1 n1 where
    step: "try_event rejects f sport now ev (fst st) (snd st) = (e, db1, n1)"
    by (cases "try_event rejects f sport now ev (fst st) (snd st)") auto
  then have st1: "ingest_event rejects f sport now ev st = (db1, n1)"
    by (simp add: ingest_event_def)
  from try_event_effect [OF step] obtain new1 where
    new1: "odds_snapshots db1 = odds_snapshots (fst st) @ new1"
          "\<forall>s\<in>set new1. snapshot_sound s \<and> event_quotes ev s"
    by blast
  from Cons.prems st1 have "fold (ingest_event rejects f sport now) events (db1, n1) = st'"
    by simp
  from Cons.IH [OF this] obtain new2 where
    new2: "odds_snapshots (fst st') = odds_snapshots db1 @ new2"
          "\<forall>s\<in>set new2. snapshot_sound s \<and> (\<exists>ev\<in>set events. event_quotes ev s)"
    by auto
  from new1 new2 have "odds_snapshots (fst st') = odds_snapshots (fst st) @ (new1 @ new2)
     \<and> (\<forall>s\<in>set (new1 @ new2). snapshot_sound s
            \<and> (\<exists>x\<in>set (ev # events). event_quotes x s))"
    by auto
  then show ?case by blast
qed

lemma snapshot_of_block_skips:
  assumes "\<not> truthy_num (block_price h b) \<or> \<not> truthy_num (block_price a b)"
  shows "snapshot_of_block g now h a b = Inr None"
  using assms
  by (cases "bm_markets b")
     (auto simp: snapshot_of_block_def block_price_def Let_def)


lemmas ingest_defs = ingest_odds_def ingest_event_def try_event_def snapshot_of_block_def
  commit_game_def commit_snapshots_def next_game_id_def outcome_map_def dict_get_def
  truthy_str_def truthy_num_def or_zero_def replace_Z_def ALL_BOOKS_def SHARP_BOOKS_def
  SOFT_BOOKS_def py_div_def bind_res_simps Let_def

lemma ex_ingest_negative:
  "odds_snapshots (fst (ingest_odds no_constraint ex_fromisoformat ''basketball_nba'' 7
                          [ex_event_negative] ex_db_empty))
     = [ex_negative_snapshot]"
  by (simp add: ingest_defs ex_fromisoformat_def ex_event_negative_def
        ex_event_def ex_block_negative_def ex_db_empty_def no_constraint_def ex_negative_snapshot_def)

lemma ex_ingest_once:
  "odds_snapshots (fst (ingest_odds no_constraint ex_fromisoformat ''basketball_nba'' 7
                          [ex_event] ex_db_empty))
     = [ex_pinnacle\<lparr>snapshot_time := 7\<rparr>, ex_draftkings\<lparr>snapshot_time := 7\<rparr>]"
  by (simp add: ingest_defs ex_fromisoformat_def ex_event_def
        ex_block_pinnacle_def ex_block_draftkings_def ex_db_empty_def no_constraint_def ex_pinnacle_def
        ex_draftkings_def)



section \<open>Ingestion: which quotes are stored\<close>

text \<open>
  C2, as the claim states it, fails.  The guard is \<open>if not home_odds or not away_odds\<close>,
  which is false for a negative number: a Pinnacle block quoting the home team at -2 and
  the away team at 2 is stored, with home odds -2 and implied probability -1/2.
\<close>

theorem ingest_odds_stores_negative_price:
  "odds_snapshots (fst (ingest_odds no_constraint ex_fromisoformat ''basketball_nba'' 7
                          [ex_event_negative] ex_db_empty))
     = [ex_negative_snapshot]
   \<and> home_odds ex_negative_snapshot < 0 \<and> home_implied_prob ex_negative_snapshot < 0"
  by (simp add: ex_ingest_negative) (simp add: ex_negative_snapshot_def)

text \<open>
  C2, amended.  A bookmaker block whose home or away price is missing or zero yields no
  snapshot.  Every snapshot that a call of \<open>ingest_odds\<close> adds to the store comes from a
  block of one of the fed events that quotes both prices; its home and away odds are those
  prices and are not zero, its implied probabilities are exactly \<open>1 / odds\<close>, and each
  of them lies in (0, 1) exactly when its odds are above 1.
\<close>

theorem ingest_odds_stored_snapshots:
  assumes "s \<in> set (odds_snapshots (fst (ingest_odds rejects f sport now events db)))"
      and "s \<notin> set (odds_snapshots db)"
  shows "(\<exists>ev\<in>set events. event_quotes ev s)
       \<and> home_odds s \<noteq> 0 \<and> away_odds s \<noteq> 0
       \<and> home_implied_prob s = 1 / home_odds s
       \<and> away_implied_prob s = 1 / away_odds s
       \<and> ((0 < home_implied_prob s \<and> home_implied_prob s < 1) = (1 < home_odds s))
       \<and> ((0 < away_implied_prob s \<and> away_implied_prob s < 1) = (1 < away_odds s))
       \<and> (\<forall>g h a b. \<not> truthy_num (block_price h b) \<or> \<not> truthy_num (block_price a b)
              \<longrightarrow> snapshot_of_block g now h a b = Inr None)"
proof (cases "events = []")
  case True
  with assms show ?thesis by (simp add: ingest_odds_def)
next
  case False
  then have "ingest_odds rejects f sport now events db
               = fold (ingest_event rejects f sport now) events (db, 0)"
    by (simp add: ingest_odds_def)
  from fold_ingest_snapshots [OF this [symmetric]] assms
  have "snapshot_sound s \<and> (\<exists>ev\<in>set events. event_quotes ev s)"
    by auto
  then show ?thesis unfolding snapshot_sound_def
    using snapshot_of_block_skips by blast
qed

theorem ingest_odds_stored_snapshots_witness:
  "ex_pinnacle\<lparr>snapshot_time := 7\<rparr>
     \<in> set (odds_snapshots (fst (ingest_odds no_constraint ex_fromisoformat ''basketball_nba'' 7
                                   [ex_event] ex_db_empty)))
   \<and> ex_pinnacle\<lparr>snapshot_time := 7\<rparr> \<notin> set (odds_snapshots ex_db_empty)
   \<and> event_quotes ex_event (ex_pinnacle\<lparr>snapshot_time := 7\<rparr>)
   \<and> home_implied_prob (ex_pinnacle\<lparr>snapshot_time := 7\<rparr>) = 5 / 8"
proof -
  have stored: "ex_pinnacle\<lparr>snapshot_time := 7\<rparr>
     \<in> set (odds_snapshots (fst (ingest_odds no_constraint ex_fromisoformat ''basketball_nba'' 7
                                   [ex_event] ex_db_empty)))"
    by (simp add: ex_ingest_once)
  have fresh: "ex_pinnacle\<lparr>snapshot_time := 7\<rparr> \<notin> set (odds_snapshots ex_db_empty)"
    by (simp add: ex_db_empty_def)
  from ingest_odds_stored_snapshots [OF stored fresh] stored fresh show ?thesis
    by (simp add: ex_pinnacle_def event_quotes_def snapshot_quoted_def block_price_def
          outcome_map_def dict_get_def ex_event_def ex_block_pinnacle_def
          ex_block_draftkings_def)
qed

section \<open>Ingestion: the returned count\<close>


section \<open>Ingestion: one game per external identifier\<close>



end
